theory Spec2Isabelle
  imports Complex_Main
begin

section \<open>Python values carried by the protocol\<close>

text \<open>
  The server of \<^verbatim>\<open>src/ui/studio-dynamic.py\<close> stores and forwards whatever
  \<^verbatim>\<open>json.loads\<close> returns. The values are therefore the Python images of JSON
  documents: \<^verbatim>\<open>None\<close>, booleans, integers, floats, strings, lists and dictionaries.
  A dictionary is an association list in insertion order. Floats are either not-a-number,
  an infinity with its sign (\<open>True\<close> for the positive one), or a finite number, for which
  the rationals stand.
\<close>

datatype pyfloat = FNaN | FInf bool | FFin rat

datatype pyval =
    PNone
  | PBool bool
  | PInt int
  | PFloat pyfloat
  | PStr string
  | PList "pyval list"
  | PDict "(pyval \<times> pyval) list"

type_synonym pydict = "(pyval \<times> pyval) list"

text \<open>The exceptions that can arise in the server; \<open>SendError\<close> stands for whatever
  \<^verbatim>\<open>send\<close> raises that is not \<^verbatim>\<open>ConnectionClosed\<close>.\<close>

datatype pyerr =
    JSONDecodeError
  | RecursionError
  | AttributeError
  | TypeError
  | ValueError
  | KeyError
  | OSError
  | SendError

text \<open>Truth value of an object, as \<^verbatim>\<open>if component_id:\<close> and \<^verbatim>\<open>or\<close> test it.\<close>

fun truthy :: "pyval \<Rightarrow> bool" where
  "truthy PNone = False"
| "truthy (PBool b) = b"
| "truthy (PInt i) = (i \<noteq> 0)"
| "truthy (PFloat FNaN) = True"
| "truthy (PFloat (FInf p)) = True"
| "truthy (PFloat (FFin r)) = (r \<noteq> 0)"
| "truthy (PStr s) = (s \<noteq> [])"
| "truthy (PList xs) = (xs \<noteq> [])"
| "truthy (PDict d) = (d \<noteq> [])"

definition py_or :: "pyval \<Rightarrow> pyval \<Rightarrow> pyval" where
  "py_or a b = (if truthy a then a else b)"

text \<open>Lists and dictionaries cannot be dictionary keys: hashing them raises TypeError.\<close>

fun hashable :: "pyval \<Rightarrow> bool" where
  "hashable (PList xs) = False"
| "hashable (PDict d) = False"
| "hashable v = True"

text \<open>
  Equality of keys. A dictionary finds a key by its hash and by \<^verbatim>\<open>==\<close>. Booleans,
  integers and finite floats compare by numeric value (\<^verbatim>\<open>True == 1 == 1.0\<close>), strings
  by content, infinities by sign; a not-a-number parsed from a frame equals no key, and
  lists and dictionaries are never keys. \<open>key_of\<close> is the value a key is compared by.
\<close>

datatype keyval = KNone | KNum rat | KInf bool | KStr string

fun key_of :: "pyval \<Rightarrow> keyval option" where
  "key_of PNone = Some KNone"
| "key_of (PBool b) = Some (KNum (if b then 1 else 0))"
| "key_of (PInt i) = Some (KNum (of_int i))"
| "key_of (PFloat FNaN) = None"
| "key_of (PFloat (FInf p)) = Some (KInf p)"
| "key_of (PFloat (FFin r)) = Some (KNum r)"
| "key_of (PStr s) = Some (KStr s)"
| "key_of (PList xs) = None"
| "key_of (PDict d) = None"

definition key_eq :: "pyval \<Rightarrow> pyval \<Rightarrow> bool" where
  "key_eq a b = (key_of a \<noteq> None \<and> key_of a = key_of b)"

section \<open>Dictionaries\<close>

fun dict_lookup :: "pydict \<Rightarrow> pyval \<Rightarrow> pyval option" where
  "dict_lookup [] k = None"
| "dict_lookup ((k', v) # d) k = (if key_eq k' k then Some v else dict_lookup d k)"

text \<open>\<^verbatim>\<open>d.get(k)\<close>: the value, or \<^verbatim>\<open>None\<close> for a missing key.\<close>

definition dict_get :: "pydict \<Rightarrow> pyval \<Rightarrow> pyval" where
  "dict_get d k = (case dict_lookup d k of None \<Rightarrow> PNone | Some v \<Rightarrow> v)"

text \<open>
  \<^verbatim>\<open>d[k] = v\<close> for a hashable key: an equal key keeps its place and its key object
  and takes the new value; a new key goes to the end.
\<close>

fun dict_store :: "pydict \<Rightarrow> pyval \<Rightarrow> pyval \<Rightarrow> pydict" where
  "dict_store [] k v = [(k, v)]"
| "dict_store ((k', v') # d) k v =
     (if key_eq k' k then (k', v) # d else (k', v') # dict_store d k v)"

fun dict_del :: "pydict \<Rightarrow> pyval \<Rightarrow> pydict" where
  "dict_del [] k = []"
| "dict_del ((k', v') # d) k = (if key_eq k' k then d else (k', v') # dict_del d k)"

definition dict_setitem :: "pydict \<Rightarrow> pyval \<Rightarrow> pyval \<Rightarrow> pyerr + pydict" where
  "dict_setitem d k v = (if hashable k then Inr (dict_store d k v) else Inl TypeError)"

text \<open>\<^verbatim>\<open>k in d\<close>.\<close>

definition dict_contains :: "pydict \<Rightarrow> pyval \<Rightarrow> pyerr + bool" where
  "dict_contains d k = (if hashable k then Inr (dict_lookup d k \<noteq> None) else Inl TypeError)"

text \<open>\<^verbatim>\<open>x.get(name)\<close> on an arbitrary value: only dictionaries have the method.\<close>

fun py_get :: "pyval \<Rightarrow> string \<Rightarrow> pyerr + pyval" where
  "py_get (PDict d) name = Inr (dict_get d (PStr name))"
| "py_get v name = Inl AttributeError"

text \<open>
  \<^verbatim>\<open>d.update(arg)\<close>. A dictionary argument is merged entry by entry. Any other
  iterable is read as a sequence of two-element sequences; each element is turned into a
  list first (a string into its characters, a dictionary into its keys) and stored as it
  is reached, so what was stored before a bad element stays stored.
\<close>

fun item_seq :: "pyval \<Rightarrow> pyerr + pyval list" where
  "item_seq (PList xs) = Inr xs"
| "item_seq (PStr s) = Inr (map (\<lambda>c. PStr [c]) s)"
| "item_seq (PDict d) = Inr (map fst d)"
| "item_seq v = Inl TypeError"

fun merge_pairs :: "pydict \<Rightarrow> (pyval \<times> pyval) list \<Rightarrow> pyerr option \<times> pydict" where
  "merge_pairs d [] = (None, d)"
| "merge_pairs d ((k, v) # kvs) =
     (case dict_setitem d k v of
        Inl e \<Rightarrow> (Some e, d)
      | Inr d' \<Rightarrow> merge_pairs d' kvs)"

fun merge_from_seq2 :: "pydict \<Rightarrow> pyval list \<Rightarrow> pyerr option \<times> pydict" where
  "merge_from_seq2 d [] = (None, d)"
| "merge_from_seq2 d (item # items) =
     (case item_seq item of
        Inl e \<Rightarrow> (Some e, d)
      | Inr [k, v] \<Rightarrow>
          (case dict_setitem d k v of
             Inl e \<Rightarrow> (Some e, d)
           | Inr d' \<Rightarrow> merge_from_seq2 d' items)
      | Inr other \<Rightarrow> (Some ValueError, d))"

fun dict_update :: "pydict \<Rightarrow> pyval \<Rightarrow> pyerr option \<times> pydict" where
  "dict_update d (PDict kvs) = merge_pairs d kvs"
| "dict_update d (PList items) = merge_from_seq2 d items"
| "dict_update d (PStr s) = merge_from_seq2 d (map (\<lambda>c. PStr [c]) s)"
| "dict_update d v = (Some TypeError, d)"

section \<open>The server object\<close>

text \<open>
  A connection is known by its transport identity. The fields \<open>components\<close>,
  \<open>event_stream\<close>, \<open>websocket_clients\<close> and \<open>is_running\<close> are those of
  \<^verbatim>\<open>DynamicStudio\<close>. The remaining fields record what the object did to the outside:
  \<open>emitted\<close> the messages handed to \<^verbatim>\<open>broadcast_message\<close>, \<open>delivered\<close> the
  \<^verbatim>\<open>client.send\<close> calls that returned, \<open>close_calls\<close> the \<^verbatim>\<open>client.close\<close> calls, and
  \<open>logged\<close> the log records. The configuration only names the host and the ports;
  the rendering functions read the registry and change nothing of it.
\<close>

type_synonym conn = nat

datatype log_entry =
    LogInfo string
  | LogWarning string
  | LogError string pyerr

record studio =
  components :: pydict
  event_stream :: "pyval list"
  websocket_clients :: "conn list"
  is_running :: bool
  emitted :: "pyval list"
  delivered :: "(conn \<times> pyval) list"
  close_calls :: "conn list"
  logged :: "log_entry list"

text \<open>\<^verbatim>\<open>__init__\<close>.\<close>

definition init :: studio where
  "init = \<lparr> components = [], event_stream = [], websocket_clients = [],
            is_running = False, emitted = [], delivered = [], close_calls = [], logged = [] \<rparr>"

definition log_to :: "log_entry \<Rightarrow> studio \<Rightarrow> studio" where
  "log_to e s = s\<lparr>logged := logged s @ [e]\<rparr>"

section \<open>Broadcast\<close>

text \<open>
  What \<^verbatim>\<open>await client.send(...)\<close> does on a connection: it returns, it raises
  \<^verbatim>\<open>ConnectionClosed\<close>, or it raises something else.
\<close>

datatype send_result = Sent | ConnectionClosed | SendFailed

text \<open>The first loop of \<^verbatim>\<open>broadcast_message\<close>: only \<^verbatim>\<open>ConnectionClosed\<close> is caught.\<close>

fun send_loop ::
  "(conn \<Rightarrow> send_result) \<Rightarrow> pyval \<Rightarrow> conn list \<Rightarrow> conn list \<Rightarrow> (conn \<times> pyval) list
     \<Rightarrow> pyerr option \<times> conn list \<times> (conn \<times> pyval) list" where
  "send_loop send m [] disc out = (None, disc, out)"
| "send_loop send m (c # cs) disc out =
     (case send c of
        Sent \<Rightarrow> send_loop send m cs disc (out @ [(c, m)])
      | ConnectionClosed \<Rightarrow> send_loop send m cs (disc @ [c]) out
      | SendFailed \<Rightarrow> (Some SendError, disc, out))"

text \<open>\<^verbatim>\<open>list.remove(x)\<close>: drops the first occurrence, raises ValueError when there is none.\<close>

definition list_remove :: "conn list \<Rightarrow> conn \<Rightarrow> pyerr + conn list" where
  "list_remove cs c = (if c \<in> set cs then Inr (remove1 c cs) else Inl ValueError)"

text \<open>The second loop of \<^verbatim>\<open>broadcast_message\<close>.\<close>

fun remove_loop :: "conn list \<Rightarrow> conn list \<Rightarrow> pyerr option \<times> conn list" where
  "remove_loop [] cs = (None, cs)"
| "remove_loop (c # disc) cs =
     (case list_remove cs c of
        Inl e \<Rightarrow> (Some e, cs)
      | Inr cs' \<Rightarrow> remove_loop disc cs')"

definition broadcast_message ::
  "(conn \<Rightarrow> send_result) \<Rightarrow> pyval \<Rightarrow> studio \<Rightarrow> pyerr option \<times> studio" where
  "broadcast_message send message s =
     (case send_loop send message (websocket_clients s) [] [] of
        (err, disc, out) \<Rightarrow>
          (let s1 = s\<lparr>emitted := emitted s @ [message], delivered := delivered s @ out\<rparr>
           in case err of
                Some e \<Rightarrow> (Some e, s1)
              | None \<Rightarrow>
                  (case remove_loop disc (websocket_clients s1) of
                     (err', cs') \<Rightarrow> (err', s1\<lparr>websocket_clients := cs'\<rparr>))))"

section \<open>Message handlers\<close>

text \<open>
  Every handler takes the outcome \<open>send\<close> of the sends of this broadcast and the text
  \<open>now\<close> of \<^verbatim>\<open>datetime.now().isoformat()\<close>, and returns the exception it raised, if
  any, with the state it left behind.
\<close>

definition handle_ui_update ::
  "(conn \<Rightarrow> send_result) \<Rightarrow> string \<Rightarrow> pyval \<Rightarrow> studio \<Rightarrow> pyerr option \<times> studio" where
  "handle_ui_update send now component s =
     (case py_get component ''id'' of
        Inl e \<Rightarrow> (Some e, s)
      | Inr component_id \<Rightarrow>
          if truthy component_id then
            (case dict_setitem (components s) component_id component of
               Inl e \<Rightarrow> (Some e, s)
             | Inr reg \<Rightarrow>
                 (case broadcast_message send
                         (PDict [(PStr ''type'', PStr ''ui.studio.update''),
                                 (PStr ''component'', component),
                                 (PStr ''timestamp'', PStr now)])
                         (s\<lparr>components := reg\<rparr>) of
                    (Some e, s') \<Rightarrow> (Some e, s')
                  | (None, s') \<Rightarrow> (None, log_to (LogInfo ''Updated UI component'') s')))
          else (None, s))"

definition handle_mcp_tool_call ::
  "(conn \<Rightarrow> send_result) \<Rightarrow> string \<Rightarrow> pyval \<Rightarrow> pyval \<Rightarrow> studio \<Rightarrow> pyerr option \<times> studio" where
  "handle_mcp_tool_call send now tool args s =
     (let response = PDict [(PStr ''success'', PBool True),
                            (PStr ''tool'', tool),
                            (PStr ''data'', PDict []),
                            (PStr ''components'', PList [])]
      in broadcast_message send
           (PDict [(PStr ''type'', PStr ''ui.mcp.tool.response''),
                   (PStr ''response'', response),
                   (PStr ''timestamp'', PStr now)])
           (log_to (LogInfo ''MCP tool call'') s))"

definition handle_component_create ::
  "(conn \<Rightarrow> send_result) \<Rightarrow> string \<Rightarrow> pyval \<Rightarrow> studio \<Rightarrow> pyerr option \<times> studio" where
  "handle_component_create send now component s =
     (case py_get component ''id'' of
        Inl e \<Rightarrow> (Some e, s)
      | Inr id_field \<Rightarrow>
          (case (if truthy id_field then Inr id_field else py_get component ''componentId'') of
             Inl e \<Rightarrow> (Some e, s)
           | Inr component_id \<Rightarrow>
               if truthy component_id then
                 (case dict_setitem (components s) component_id component of
                    Inl e \<Rightarrow> (Some e, s)
                  | Inr reg \<Rightarrow>
                      (case broadcast_message send
                              (PDict [(PStr ''type'', PStr ''ui.component.create''),
                                      (PStr ''component'', component),
                                      (PStr ''timestamp'', PStr now)])
                              (s\<lparr>components := reg\<rparr>) of
                         (Some e, s') \<Rightarrow> (Some e, s')
                       | (None, s') \<Rightarrow> (None, log_to (LogInfo ''Created component'') s')))
               else (None, s)))"

text \<open>
  \<^verbatim>\<open>self.components[component_id].update(props)\<close> changes the stored object in place:
  the registry keeps its key and holds the merged dictionary, also when the merge stops
  at an exception.
\<close>

definition handle_component_update ::
  "(conn \<Rightarrow> send_result) \<Rightarrow> string \<Rightarrow> pyval \<Rightarrow> pyval \<Rightarrow> studio \<Rightarrow> pyerr option \<times> studio" where
  "handle_component_update send now component_id props s =
     (case dict_contains (components s) component_id of
        Inl e \<Rightarrow> (Some e, s)
      | Inr False \<Rightarrow> (None, s)
      | Inr True \<Rightarrow>
          (case dict_lookup (components s) component_id of
             None \<Rightarrow> (Some KeyError, s)
           | Some (PDict d) \<Rightarrow>
               (case dict_update d props of
                  (err, d') \<Rightarrow>
                    (let s1 = s\<lparr>components := dict_store (components s) component_id (PDict d')\<rparr>
                     in case err of
                          Some e \<Rightarrow> (Some e, s1)
                        | None \<Rightarrow>
                            (case broadcast_message send
                                    (PDict [(PStr ''type'', PStr ''ui.component.update''),
                                            (PStr ''componentId'', component_id),
                                            (PStr ''props'', props),
                                            (PStr ''timestamp'', PStr now)])
                                    s1 of
                               (Some e, s') \<Rightarrow> (Some e, s')
                             | (None, s') \<Rightarrow> (None, log_to (LogInfo ''Updated component'') s'))))
           | Some other \<Rightarrow> (Some AttributeError, s)))"

definition handle_component_delete ::
  "(conn \<Rightarrow> send_result) \<Rightarrow> string \<Rightarrow> pyval \<Rightarrow> studio \<Rightarrow> pyerr option \<times> studio" where
  "handle_component_delete send now component_id s =
     (case dict_contains (components s) component_id of
        Inl e \<Rightarrow> (Some e, s)
      | Inr False \<Rightarrow> (None, s)
      | Inr True \<Rightarrow>
          (case broadcast_message send
                  (PDict [(PStr ''type'', PStr ''ui.component.delete''),
                          (PStr ''componentId'', component_id),
                          (PStr ''timestamp'', PStr now)])
                  (s\<lparr>components := dict_del (components s) component_id\<rparr>) of
             (Some e, s') \<Rightarrow> (Some e, s')
           | (None, s') \<Rightarrow> (None, log_to (LogInfo ''Deleted component'') s')))"

section \<open>Dispatch\<close>

text \<open>
  \<open>loaded\<close> is what \<^verbatim>\<open>json.loads(message)\<close> did with the frame: \<open>Inr\<close> the parsed
  value, or \<open>Inl\<close> the exception (\<open>JSONDecodeError\<close> for text that is not JSON).
  \<open>dispatch\<close> is the body of the \<^verbatim>\<open>try\<close> of \<^verbatim>\<open>handle_message\<close>;
  \<^verbatim>\<open>data.get\<close> exists only when the frame is an object.
\<close>

fun dispatch ::
  "(conn \<Rightarrow> send_result) \<Rightarrow> string \<Rightarrow> pyerr + pyval \<Rightarrow> studio \<Rightarrow> pyerr option \<times> studio" where
  "dispatch send now (Inl e) s = (Some e, s)"
| "dispatch send now (Inr (PDict data)) s =
     (let message_type = dict_get data (PStr ''type'') in
      if message_type = PStr ''ui.studio.update'' then
        handle_ui_update send now (dict_get data (PStr ''component'')) s
      else if message_type = PStr ''ui.mcp.tool.call'' then
        handle_mcp_tool_call send now (dict_get data (PStr ''tool'')) (dict_get data (PStr ''args'')) s
      else if message_type = PStr ''ui.component.create'' then
        handle_component_create send now (dict_get data (PStr ''component'')) s
      else if message_type = PStr ''ui.component.update'' then
        handle_component_update send now (dict_get data (PStr ''componentId''))
          (dict_get data (PStr ''props'')) s
      else if message_type = PStr ''ui.component.delete'' then
        handle_component_delete send now (dict_get data (PStr ''componentId'')) s
      else (None, log_to (LogWarning ''Unknown message type'') s))"
| "dispatch send now (Inr v) s = (Some AttributeError, s)"

text \<open>The two \<^verbatim>\<open>except\<close> clauses of \<^verbatim>\<open>handle_message\<close>, in their order.\<close>

definition handle_message ::
  "(conn \<Rightarrow> send_result) \<Rightarrow> string \<Rightarrow> pyerr + pyval \<Rightarrow> studio \<Rightarrow> pyerr option \<times> studio" where
  "handle_message send now loaded s =
     (case dispatch send now loaded s of
        (None, s') \<Rightarrow> (None, s')
      | (Some JSONDecodeError, s') \<Rightarrow>
          (None, log_to (LogError ''Error parsing message'' JSONDecodeError) s')
      | (Some e, s') \<Rightarrow> (None, log_to (LogError ''Error handling message'' e) s'))"

section \<open>Connections and lifecycle\<close>

text \<open>
  One inbound frame as the server meets it: the result of parsing it, the behaviour of the
  connections while its broadcast runs, and the clock.
\<close>

type_synonym frame = "(pyerr + pyval) \<times> (conn \<Rightarrow> send_result) \<times> string"

text \<open>The \<^verbatim>\<open>async for\<close> loop of \<^verbatim>\<open>handle_websocket\<close>.\<close>

fun message_loop :: "frame list \<Rightarrow> studio \<Rightarrow> pyerr option \<times> studio" where
  "message_loop [] s = (None, s)"
| "message_loop ((loaded, send, now) # frames) s =
     (case handle_message send now loaded s of
        (Some e, s') \<Rightarrow> (Some e, s')
      | (None, s') \<Rightarrow> message_loop frames s')"

text \<open>
  \<^verbatim>\<open>handle_websocket\<close>: \<open>abnormal\<close> says whether the iteration over the socket ends
  with \<^verbatim>\<open>ConnectionClosed\<close> rather than by exhaustion. The \<^verbatim>\<open>finally\<close> clause runs in
  every case, and an exception of its own replaces the pending one.
\<close>

definition handle_websocket ::
  "conn \<Rightarrow> frame list \<Rightarrow> bool \<Rightarrow> studio \<Rightarrow> pyerr option \<times> studio" where
  "handle_websocket websocket frames abnormal s =
     (let s0 = log_to (LogInfo ''New WebSocket connection'')
                 (s\<lparr>websocket_clients := websocket_clients s @ [websocket]\<rparr>)
      in case message_loop frames s0 of
           (err, s1) \<Rightarrow>
             (let s2 = (if err = None \<and> abnormal
                        then log_to (LogInfo ''WebSocket connection closed'') s1 else s1)
              in case list_remove (websocket_clients s2) websocket of
                   Inl e \<Rightarrow> (Some e, s2)
                 | Inr cs \<Rightarrow> (err, s2\<lparr>websocket_clients := cs\<rparr>)))"

text \<open>
  \<^verbatim>\<open>start\<close>: \<open>bind\<close> is the outcome of awaiting \<^verbatim>\<open>websockets.serve\<close>, the exception
  it raised if the listening socket could not be set up.
\<close>

definition start :: "pyerr option \<Rightarrow> studio \<Rightarrow> pyerr option \<times> studio" where
  "start bind s =
     (if is_running s then (None, log_to (LogWarning ''Studio is already running'') s)
      else
        (let s1 = log_to (LogInfo ''Starting Dynamic Studio'') (s\<lparr>is_running := True\<rparr>)
         in case bind of
              Some e \<Rightarrow> (Some e, s1)
            | None \<Rightarrow> (None, log_to (LogInfo ''Dynamic Studio started'') s1)))"

text \<open>
  \<^verbatim>\<open>stop\<close>: \<open>close c\<close> is the exception \<^verbatim>\<open>await client.close()\<close> raises on \<open>c\<close>, if any.
\<close>

fun close_loop :: "(conn \<Rightarrow> pyerr option) \<Rightarrow> conn list \<Rightarrow> conn list \<Rightarrow> pyerr option \<times> conn list" where
  "close_loop close [] shut = (None, shut)"
| "close_loop close (c # cs) shut =
     (case close c of
        Some e \<Rightarrow> (Some e, shut)
      | None \<Rightarrow> close_loop close cs (shut @ [c]))"

definition stop :: "(conn \<Rightarrow> pyerr option) \<Rightarrow> studio \<Rightarrow> pyerr option \<times> studio" where
  "stop close s =
     (if \<not> is_running s then (None, s)
      else
        (case close_loop close (websocket_clients s) [] of
           (err, shut) \<Rightarrow>
             (let s1 = s\<lparr>is_running := False, close_calls := close_calls s @ shut\<rparr>
              in case err of
                   Some e \<Rightarrow> (Some e, s1)
                 | None \<Rightarrow>
                     (None, log_to (LogInfo ''Dynamic Studio stopped'')
                              (s1\<lparr>websocket_clients := []\<rparr>)))))"

text \<open>A run of the server over the frames it receives, whatever connection they come from.\<close>

fun run :: "frame list \<Rightarrow> studio \<Rightarrow> studio" where
  "run [] s = s"
| "run ((loaded, send, now) # frames) s = run frames (snd (handle_message send now loaded s))"

section \<open>Properties of the registry\<close>

text \<open>
  The identifier of a component as the server reads it: \<^verbatim>\<open>component.get("id") or
  component.get("componentId")\<close>.
\<close>

definition component_id_of :: "pydict \<Rightarrow> pyval" where
  "component_id_of d = py_or (dict_get d (PStr ''id'')) (dict_get d (PStr ''componentId''))"

text \<open>A key names a value when it is that very value or compares equal to it.\<close>

definition same_key :: "pyval \<Rightarrow> pyval \<Rightarrow> bool" where
  "same_key k v = (k = v \<or> key_eq k v)"

text \<open>
  A registry entry is in order when its key is truthy (for a string: not empty), the
  stored value is an object, and the key names the identifier of that object.
\<close>

fun entry_ok :: "pyval \<times> pyval \<Rightarrow> bool" where
  "entry_ok (k, PDict d) = (truthy k \<and> same_key k (component_id_of d))"
| "entry_ok (k, v) = False"

definition registry_ok :: "studio \<Rightarrow> bool" where
  "registry_ok s = list_all entry_ok (components s)"

text \<open>The strict reading: the key names the \<^verbatim>\<open>id\<close> field itself, which is truthy.\<close>

fun entry_has_own_id :: "pyval \<times> pyval \<Rightarrow> bool" where
  "entry_has_own_id (k, PDict d) =
     (truthy (dict_get d (PStr ''id'')) \<and> same_key k (dict_get d (PStr ''id'')))"
| "entry_has_own_id (k, v) = False"


text \<open>
  The keys \<^verbatim>\<open>d.update(arg)\<close> may write, and the update frames that write neither
  \<^verbatim>\<open>id\<close> nor \<^verbatim>\<open>componentId\<close>.
\<close>

fun item_key :: "pyval \<Rightarrow> pyval list" where
  "item_key item = (case item_seq item of Inr [k, v] \<Rightarrow> [k] | _ \<Rightarrow> [])"

fun update_keys :: "pyval \<Rightarrow> pyval list" where
  "update_keys (PDict kvs) = map fst kvs"
| "update_keys (PList items) = concat (map item_key items)"
| "update_keys v = []"

definition leaves_ids :: "pyval \<Rightarrow> bool" where
  "leaves_ids props =
     list_all (\<lambda>k. \<not> key_eq k (PStr ''id'') \<and> \<not> key_eq k (PStr ''componentId''))
       (update_keys props)"

fun frame_leaves_ids :: "frame \<Rightarrow> bool" where
  "frame_leaves_ids (Inr (PDict data), send, now) =
     (if dict_get data (PStr ''type'') = PStr ''ui.component.update''
      then leaves_ids (dict_get data (PStr ''props'')) else True)"
| "frame_leaves_ids (loaded, send, now) = True"

text \<open>
  What every handler keeps to: the lifecycle flag, the close calls and the event stream
  stay as they are, no connection is added, a connection whose send did not raise
  \<^verbatim>\<open>ConnectionClosed\<close> stays, the exception is not a decode error, and the records
  logged are notices.
\<close>

definition confined :: "(conn \<Rightarrow> send_result) \<Rightarrow> studio \<Rightarrow> pyerr option \<times> studio \<Rightarrow> bool" where
  "confined send s r =
     (case r of (err, s') \<Rightarrow>
        is_running s' = is_running s \<and> close_calls s' = close_calls s \<and>
        event_stream s' = event_stream s \<and> err \<noteq> Some JSONDecodeError \<and>
        set (websocket_clients s') \<subseteq> set (websocket_clients s) \<and>
        (\<forall>x \<in> set (websocket_clients s). send x \<noteq> ConnectionClosed \<longrightarrow> x \<in> set (websocket_clients s')) \<and>
        (\<exists>ls. logged s' = logged s @ ls \<and> (\<forall>e \<in> set ls. \<exists>t. e = LogInfo t \<or> e = LogWarning t)))"


section \<open>Sample inputs\<close>

text \<open>Connections that all accept the message, and connections that all close cleanly.\<close>

definition all_sent :: "conn \<Rightarrow> send_result" where
  "all_sent c = Sent"

definition close_ok :: "conn \<Rightarrow> pyerr option" where
  "close_ok c = None"

text \<open>Connection 1 has gone away, the others accept; connection 1 fails otherwise.\<close>

definition first_closed :: "conn \<Rightarrow> send_result" where
  "first_closed c = (if c = 1 then ConnectionClosed else Sent)"


definition button_c1 :: pyval where
  "button_c1 = PDict [(PStr ''id'', PStr ''c1''), (PStr ''kind'', PStr ''button''),
                      (PStr ''props'', PDict [])]"

definition create_frame :: "pyval \<Rightarrow> frame" where
  "create_frame component =
     (Inr (PDict [(PStr ''type'', PStr ''ui.component.create''),
                  (PStr ''component'', component)]),
      all_sent, ''2024-01-01T00:00:00'')"

definition update_frame :: "pyval \<Rightarrow> pyval \<Rightarrow> frame" where
  "update_frame component_id props =
     (Inr (PDict [(PStr ''type'', PStr ''ui.component.update''),
                  (PStr ''componentId'', component_id),
                  (PStr ''props'', props)]),
      all_sent, ''2024-01-01T00:00:01'')"

definition delete_frame :: "pyval \<Rightarrow> frame" where
  "delete_frame component_id =
     (Inr (PDict [(PStr ''type'', PStr ''ui.component.delete''),
                  (PStr ''componentId'', component_id)]),
      all_sent, ''2024-01-01T00:00:02'')"

definition tool_call :: pydict where
  "tool_call = [(PStr ''type'', PStr ''ui.mcp.tool.call''), (PStr ''tool'', PStr ''search''),
                (PStr ''args'', PDict [(PStr ''q'', PStr ''x'')])]"

text \<open>
  Three connections of which the first has gone away, the second accepts and the third
  fails in another way.
\<close>

definition mixed_sends :: "conn \<Rightarrow> send_result" where
  "mixed_sends c = (if c = 1 then ConnectionClosed else if c = 3 then SendFailed else Sent)"

definition three_clients :: studio where
  "three_clients = init\<lparr>websocket_clients := [1, 2, 3]\<rparr>"

section \<open>Broadcasting, and what a handler keeps to\<close>


lemma send_loop_shape:
  "send_loop send m cs disc out = (err, disc', out') \<Longrightarrow>
   (err = None \<or> err = Some SendError) \<and> (\<exists>more. out' = out @ more \<and> snd ` set more \<subseteq> {m})"
proof (induction cs arbitrary: disc out)
  case Nil
  then show ?case by simp
next
  case (Cons c cs)
  show ?case
  proof (cases "send c")
    case Sent
    with Cons.prems have "send_loop send m cs disc (out @ [(c, m)]) = (err, disc', out')" by simp
    from Cons.IH [OF this] show ?thesis by auto
  next
    case ConnectionClosed
    with Cons.prems have "send_loop send m cs (disc @ [c]) out = (err, disc', out')" by simp
    from Cons.IH [OF this] show ?thesis .
  next
    case SendFailed
    with Cons.prems show ?thesis by simp
  qed
qed


lemma remove_loop_err:
  "remove_loop disc cs = (err, cs') \<Longrightarrow> err = None \<or> err = Some ValueError"
  by (induction disc arbitrary: cs) (auto simp: list_remove_def split: if_splits)

lemma remove_loop_subset:
  "remove_loop disc cs = (err, cs') \<Longrightarrow> set cs' \<subseteq> set cs"
proof (induction disc arbitrary: cs)
  case Nil then show ?case by simp
next
  case (Cons c disc)
  show ?case
  proof (cases "c \<in> set cs")
    case True
    with Cons.prems have "remove_loop disc (remove1 c cs) = (err, cs')"
      by (simp add: list_remove_def)
    from Cons.IH [OF this] set_remove1_subset [of c cs] show ?thesis by blast
  next
    case False
    with Cons.prems show ?thesis by (simp add: list_remove_def)
  qed
qed


lemma send_loop_disc:
  "send_loop send m cs disc out = (err, disc', out') \<Longrightarrow>
   set disc' \<subseteq> set disc \<union> {c. send c = ConnectionClosed}"
proof (induction cs arbitrary: disc out)
  case Nil
  then show ?case by auto
next
  case (Cons c cs)
  show ?case
  proof (cases "send c")
    case Sent
    with Cons.prems have "send_loop send m cs disc (out @ [(c, m)]) = (err, disc', out')" by simp
    from Cons.IH [OF this] show ?thesis .
  next
    case ConnectionClosed
    with Cons.prems have "send_loop send m cs (disc @ [c]) out = (err, disc', out')" by simp
    from Cons.IH [OF this] ConnectionClosed show ?thesis by auto
  next
    case SendFailed
    with Cons.prems show ?thesis by auto
  qed
qed

lemma remove_loop_keeps:
  "remove_loop disc cs = (err, cs') \<Longrightarrow> x \<in> set cs \<Longrightarrow> x \<notin> set disc \<Longrightarrow> x \<in> set cs'"
proof (induction disc arbitrary: cs)
  case Nil
  then show ?case by simp
next
  case (Cons c disc)
  show ?case
  proof (cases "c \<in> set cs")
    case True
    with Cons.prems(1) have r: "remove_loop disc (remove1 c cs) = (err, cs')"
      by (simp add: list_remove_def)
    from Cons.prems(2,3) have "x \<in> set (remove1 c cs)" by simp
    with Cons.IH [OF r] Cons.prems(3) show ?thesis by simp
  next
    case False
    with Cons.prems show ?thesis by (simp add: list_remove_def)
  qed
qed

lemma broadcast_frame:
  assumes "broadcast_message send m s = (err, s')"
  shows "components s' = components s" "logged s' = logged s" "is_running s' = is_running s"
    "close_calls s' = close_calls s" "event_stream s' = event_stream s" "emitted s' = emitted s @ [m]"
    "err \<noteq> Some JSONDecodeError"
    "\<exists>more. delivered s' = delivered s @ more \<and> snd ` set more \<subseteq> {m}"
    "set (websocket_clients s') \<subseteq> set (websocket_clients s)"
    "\<forall>x \<in> set (websocket_clients s). send x \<noteq> ConnectionClosed \<longrightarrow> x \<in> set (websocket_clients s')"
proof -
  obtain e0 disc out where sl: "send_loop send m (websocket_clients s) [] [] = (e0, disc, out)"
    by (cases "send_loop send m (websocket_clients s) [] []") auto
  obtain e1 cs where rl: "remove_loop disc (websocket_clients s) = (e1, cs)"
    by (cases "remove_loop disc (websocket_clients s)") auto
  from send_loop_shape [OF sl] obtain more where
    e0: "e0 = None \<or> e0 = Some SendError" and out: "out = more" "snd ` set more \<subseteq> {m}" by auto
  from send_loop_disc [OF sl] have disc: "set disc \<subseteq> {c. send c = ConnectionClosed}" by simp
  have s': "s' = (if e0 = None
                  then s\<lparr>emitted := emitted s @ [m], delivered := delivered s @ out, websocket_clients := cs\<rparr>
                  else s\<lparr>emitted := emitted s @ [m], delivered := delivered s @ out\<rparr>)"
    and err: "err = (if e0 = None then e1 else e0)"
    using assms sl rl by (auto simp: broadcast_message_def split: option.splits)
  show "components s' = components s" "logged s' = logged s" "is_running s' = is_running s"
    "close_calls s' = close_calls s" "event_stream s' = event_stream s" "emitted s' = emitted s @ [m]"
    by (simp_all add: s')
  show "err \<noteq> Some JSONDecodeError"
    using e0 remove_loop_err [OF rl] by (auto simp: err)
  show "\<exists>more. delivered s' = delivered s @ more \<and> snd ` set more \<subseteq> {m}"
    using out by (auto simp: s')
  show "set (websocket_clients s') \<subseteq> set (websocket_clients s)"
    using remove_loop_subset [OF rl] by (auto simp: s')
  show "\<forall>x \<in> set (websocket_clients s). send x \<noteq> ConnectionClosed \<longrightarrow> x \<in> set (websocket_clients s')"
    using remove_loop_keeps [OF rl] disc by (auto simp: s')
qed



lemma confined_same: "err \<noteq> Some JSONDecodeError \<Longrightarrow> confined send s (err, s)"
  by (simp add: confined_def)

lemma confined_broadcast:
  "broadcast_message send m s = (err, s') \<Longrightarrow> confined send s (err, s')"
  using broadcast_frame [of send m s err s'] by (simp add: confined_def)

lemma confined_components:
  "confined send (s\<lparr>components := reg\<rparr>) r \<Longrightarrow> confined send s r"
  by (cases r) (simp add: confined_def)

lemma confined_log_before:
  "confined send (log_to (LogInfo t) s) r \<Longrightarrow> confined send s r"
  by (cases r) (auto simp: confined_def log_to_def)

lemma confined_log_after:
  "confined send s (err, s') \<Longrightarrow> confined send s (err, log_to (LogInfo t) s')"
  by (auto simp: confined_def log_to_def)

lemma confined_warning:
  "confined send s (None, log_to (LogWarning t) s)"
  by (auto simp: confined_def log_to_def)

lemma py_get_error: "py_get v name = Inl e \<Longrightarrow> e = AttributeError"
  by (cases v) simp_all

lemma handle_ui_update_confined:
  "confined send s (handle_ui_update send now component s)"
  by (auto simp: handle_ui_update_def dict_setitem_def
      split: sum.splits option.splits prod.splits
      dest: py_get_error
      intro!: confined_same confined_log_after
      intro: confined_components confined_broadcast)


lemma confined_broadcast_message: "confined send s (broadcast_message send m s)"
  by (cases "broadcast_message send m s") (simp add: confined_broadcast)

lemma handle_mcp_tool_call_confined:
  "confined send s (handle_mcp_tool_call send now tool args s)"
  unfolding handle_mcp_tool_call_def Let_def
  by (rule confined_log_before) (rule confined_broadcast_message)

lemma handle_component_create_confined:
  "confined send s (handle_component_create send now component s)"
  by (auto simp: handle_component_create_def dict_setitem_def
      split: sum.splits option.splits prod.splits if_splits
      dest: py_get_error
      intro!: confined_same confined_log_after
      intro: confined_components confined_broadcast)

lemma handle_component_delete_confined:
  "confined send s (handle_component_delete send now component_id s)"
  by (auto simp: handle_component_delete_def dict_contains_def
      split: sum.splits option.splits prod.splits if_splits bool.splits
      intro!: confined_same confined_log_after
      intro: confined_components confined_broadcast)

lemma merge_pairs_error: "merge_pairs d kvs = (Some e, d') \<Longrightarrow> e = TypeError"
  by (induction d kvs rule: merge_pairs.induct)
     (auto simp: dict_setitem_def split: if_splits sum.splits)

lemma merge_from_seq2_error:
  "merge_from_seq2 d items = (Some e, d') \<Longrightarrow> e = TypeError \<or> e = ValueError"
proof (induction items arbitrary: d)
  case Nil
  then show ?case by simp
next
  case (Cons item items)
  then show ?case
    by (auto simp: dict_setitem_def split: if_splits sum.splits list.splits dest: item_seq.elims)
qed

lemma dict_update_error:
  "dict_update d props = (Some e, d') \<Longrightarrow> e = TypeError \<or> e = ValueError"
  by (cases props) (auto dest: merge_pairs_error merge_from_seq2_error)

lemma handle_component_update_confined:
  "confined send s (handle_component_update send now component_id props s)"
  by (auto simp: handle_component_update_def dict_contains_def Let_def
      split: sum.splits option.splits prod.splits if_splits bool.splits pyval.splits
      dest: dict_update_error
      intro!: confined_same confined_log_after
      intro: confined_components confined_broadcast)

lemma dispatch_confined:
  "loaded \<noteq> Inl JSONDecodeError \<Longrightarrow> confined send s (dispatch send now loaded s)"
proof (cases loaded)
  case (Inl e)
  assume "loaded \<noteq> Inl JSONDecodeError"
  with Inl show ?thesis by (simp add: confined_same)
next
  case (Inr v)
  show ?thesis
  proof (cases v)
    case (PDict data)
    with Inr show ?thesis
      by (simp add: Let_def handle_ui_update_confined handle_mcp_tool_call_confined
          handle_component_create_confined handle_component_update_confined
          handle_component_delete_confined confined_warning)
  qed (simp_all add: Inr confined_same)
qed

section \<open>Lookups after a store, a delete and an update\<close>


lemma key_eq_trans: "key_eq a b \<Longrightarrow> key_eq b c \<Longrightarrow> key_eq a c"
  unfolding key_eq_def by metis


lemma dict_lookup_store_other:
  "\<not> key_eq k q \<Longrightarrow> dict_lookup (dict_store d k v) q = dict_lookup d q"
proof (induction d)
  case Nil
  then show ?case by simp
next
  case (Cons kv d)
  obtain k' v' where kv: "kv = (k', v')" by (cases kv) auto
  show ?case
  proof (cases "key_eq k' k")
    case True
    with Cons.prems have "\<not> key_eq k' q" by (auto simp: key_eq_def)
    with True show ?thesis by (simp add: kv)
  next
    case False
    with Cons show ?thesis by (simp add: kv)
  qed
qed

lemma dict_lookup_store_None:
  "dict_lookup d q = None \<Longrightarrow> \<not> key_eq k q \<Longrightarrow> dict_lookup (dict_store d k v) q = None"
  by (simp add: dict_lookup_store_other)





lemma list_all_store_new:
  "list_all entry_ok reg \<Longrightarrow> truthy (component_id_of d) \<Longrightarrow>
   list_all entry_ok (dict_store reg (component_id_of d) (PDict d))"
proof (induction reg)
  case Nil
  then show ?case by (simp add: same_key_def)
next
  case (Cons kv reg)
  obtain k' v' where kv: "kv = (k', v')" by (cases kv) auto
  from Cons.prems kv have "truthy k'" by (cases v') simp_all
  with Cons show ?case by (simp add: kv same_key_def)
qed

lemma list_all_store_found:
  "list_all entry_ok reg \<Longrightarrow> dict_lookup reg q = Some (PDict d) \<Longrightarrow>
   component_id_of d' = component_id_of d \<Longrightarrow>
   list_all entry_ok (dict_store reg q (PDict d'))"
proof (induction reg)
  case Nil
  then show ?case by simp
next
  case (Cons kv reg)
  obtain k' v' where kv: "kv = (k', v')" by (cases kv) auto
  show ?case
  proof (cases "key_eq k' q")
    case True
    with Cons.prems show ?thesis by (simp add: kv)
  next
    case False
    with Cons show ?thesis by (simp add: kv)
  qed
qed

lemma list_all_del: "list_all P d \<Longrightarrow> list_all P (dict_del d k)"
  by (induction d) auto

lemma merge_pairs_lookup:
  "\<forall>k \<in> set (map fst kvs). \<not> key_eq k q \<Longrightarrow>
   dict_lookup (snd (merge_pairs d kvs)) q = dict_lookup d q"
proof (induction kvs arbitrary: d)
  case Nil
  then show ?case by simp
next
  case (Cons kv kvs)
  obtain k v where kv: "kv = (k, v)" by (cases kv) auto
  with Cons.prems have nk: "\<not> key_eq k q" and rest: "\<forall>k \<in> set (map fst kvs). \<not> key_eq k q"
    by simp_all
  show ?case
  proof (cases "hashable k")
    case True
    then show ?thesis
      by (simp add: kv dict_setitem_def Cons.IH [OF rest] dict_lookup_store_other [OF nk])
  next
    case False
    then show ?thesis by (simp add: kv dict_setitem_def)
  qed
qed

lemma merge_from_seq2_lookup:
  "\<forall>k \<in> set (concat (map item_key items)). \<not> key_eq k q \<Longrightarrow>
   dict_lookup (snd (merge_from_seq2 d items)) q = dict_lookup d q"
proof (induction items arbitrary: d)
  case Nil
  then show ?case by simp
next
  case (Cons item items)
  from Cons.prems have rest: "\<forall>k \<in> set (concat (map item_key items)). \<not> key_eq k q"
    by simp
  show ?case
  proof (cases "\<exists>k v. item_seq item = Inr [k, v]")
    case True
    then obtain k v where kv: "item_seq item = Inr [k, v]" by auto
    with Cons.prems have nk: "\<not> key_eq k q" by simp
    show ?thesis
    proof (cases "hashable k")
      case True
      then show ?thesis
        by (simp add: kv dict_setitem_def Cons.IH [OF rest] dict_lookup_store_other [OF nk])
    next
      case False
      then show ?thesis by (simp add: kv dict_setitem_def)
    qed
  next
    case False
    then show ?thesis
      by (auto split: sum.splits list.splits)
  qed
qed

lemma item_key_chars: "concat (map item_key (map (\<lambda>c. PStr [c]) s)) = []"
  by (induction s) simp_all

lemma dict_update_lookup:
  assumes "\<forall>k \<in> set (update_keys props). \<not> key_eq k q"
  shows "dict_lookup (snd (dict_update d props)) q = dict_lookup d q"
proof (cases props)
  case (PDict kvs)
  with assms show ?thesis by (simp add: merge_pairs_lookup)
next
  case (PList items)
  with assms show ?thesis by (simp add: merge_from_seq2_lookup)
next
  case (PStr s)
  have "\<forall>k \<in> set (concat (map item_key (map (\<lambda>c. PStr [c]) s))). \<not> key_eq k q"
    by (simp only: item_key_chars) simp
  from merge_from_seq2_lookup [OF this] PStr show ?thesis by simp
qed simp_all

lemma leaves_ids_component_id:
  assumes "leaves_ids props" "dict_update d props = (e, d')"
  shows "component_id_of d' = component_id_of d"
proof -
  from assms(1) have a: "\<forall>k \<in> set (update_keys props). \<not> key_eq k (PStr ''id'')"
    and b: "\<forall>k \<in> set (update_keys props). \<not> key_eq k (PStr ''componentId'')"
    by (simp_all add: leaves_ids_def list_all_iff)
  from dict_update_lookup [OF a, of d] dict_update_lookup [OF b, of d] assms(2)
  show ?thesis by (simp add: component_id_of_def dict_get_def)
qed

section \<open>What each handler does to the registry\<close>

lemma broadcast_components:
  "components (snd (broadcast_message send m s)) = components s"
  using broadcast_frame(1) [OF prod.collapse [symmetric], where send = send and m = m and s = s]
  by simp

lemma stored_components:
  assumes "broadcast_message send m (s\<lparr>components := reg\<rparr>) = (e, s1)"
  shows "components s1 = reg" "components (log_to l s1) = reg"
  using broadcast_frame(1) [OF assms] by (simp_all add: log_to_def)

lemma handle_ui_update_components:
  assumes "handle_ui_update send now component s = (err, s')"
  shows "components s' = components s \<or>
    (\<exists>d. component = PDict d \<and> truthy (component_id_of d) \<and>
         components s' = dict_store (components s) (component_id_of d) (PDict d))"
proof (cases component)
  case (PDict d)
  show ?thesis
  proof (cases "truthy (dict_get d (PStr ''id'')) \<and> hashable (dict_get d (PStr ''id''))")
    case True
    then have cid: "component_id_of d = dict_get d (PStr ''id'')"
      by (simp add: component_id_of_def py_or_def)
    from assms True PDict have "components s' = dict_store (components s) (dict_get d (PStr ''id'')) (PDict d)"
      by (auto simp: handle_ui_update_def dict_setitem_def stored_components
          split: prod.splits option.splits)
    with True cid PDict show ?thesis by simp
  next
    case False
    with assms PDict show ?thesis
      by (auto simp: handle_ui_update_def dict_setitem_def split: if_splits)
  qed
qed (use assms in \<open>simp_all add: handle_ui_update_def\<close>)

lemma handle_component_create_components:
  assumes "handle_component_create send now component s = (err, s')"
  shows "components s' = components s \<or>
    (\<exists>d. component = PDict d \<and> truthy (component_id_of d) \<and>
         components s' = dict_store (components s) (component_id_of d) (PDict d))"
proof (cases component)
  case (PDict d)
  have pick: "(if truthy (dict_get d (PStr ''id'')) then Inr (dict_get d (PStr ''id''))
               else py_get (PDict d) ''componentId'') = (Inr (component_id_of d) :: pyerr + pyval)"
    by (simp add: component_id_of_def py_or_def)
  show ?thesis
  proof (cases "truthy (component_id_of d) \<and> hashable (component_id_of d)")
    case True
    from assms True PDict have "components s' = dict_store (components s) (component_id_of d) (PDict d)"
      by (auto simp: handle_component_create_def pick dict_setitem_def stored_components
          split: prod.splits option.splits)
    with True PDict show ?thesis by simp
  next
    case False
    with assms PDict show ?thesis
      by (auto simp: handle_component_create_def pick dict_setitem_def split: if_splits)
  qed
qed (use assms in \<open>simp_all add: handle_component_create_def\<close>)

lemma handle_component_update_components:
  assumes "handle_component_update send now component_id props s = (err, s')"
  shows "components s' = components s \<or>
    (\<exists>d e d'. dict_lookup (components s) component_id = Some (PDict d) \<and>
         dict_update d props = (e, d') \<and>
         components s' = dict_store (components s) component_id (PDict d'))"
proof (cases "hashable component_id")
  case False
  with assms show ?thesis by (simp add: handle_component_update_def dict_contains_def)
next
  case True
  show ?thesis
  proof (cases "dict_lookup (components s) component_id")
    case None
    with assms True show ?thesis by (simp add: handle_component_update_def dict_contains_def)
  next
    case (Some v)
    show ?thesis
    proof (cases v)
      case (PDict d)
      obtain e d' where u: "dict_update d props = (e, d')" by (cases "dict_update d props") auto
      from assms True Some PDict u
      have "components s' = dict_store (components s) component_id (PDict d')"
        by (auto simp: handle_component_update_def dict_contains_def Let_def stored_components
            split: prod.splits option.splits)
      with Some PDict u show ?thesis by simp
    qed (use assms True Some in \<open>simp_all add: handle_component_update_def dict_contains_def\<close>)
  qed
qed

lemma handle_component_delete_components:
  assumes "handle_component_delete send now component_id s = (err, s')"
  shows "components s' = components s \<or> components s' = dict_del (components s) component_id"
  using assms
  by (auto simp: handle_component_delete_def dict_contains_def stored_components
      split: prod.splits option.splits if_splits bool.splits)

lemma handle_mcp_tool_call_components:
  "handle_mcp_tool_call send now tool args s = (err, s') \<Longrightarrow> components s' = components s"
  using broadcast_frame(1) by (fastforce simp: handle_mcp_tool_call_def log_to_def)

lemma handle_message_components:
  "components (snd (handle_message send now loaded s)) = components (snd (dispatch send now loaded s))"
  by (cases "dispatch send now loaded s")
     (auto simp: handle_message_def log_to_def split: option.splits pyerr.splits)





lemma handle_mcp_tool_call_same:
  "components (snd (handle_mcp_tool_call send now tool args s)) = components s"
  using handle_mcp_tool_call_components [OF prod.collapse [symmetric]] .



lemma handle_ui_update_ok:
  "registry_ok s \<Longrightarrow> registry_ok (snd (handle_ui_update send now component s))"
  using handle_ui_update_components [OF prod.collapse [symmetric], of send now component s]
  by (auto simp: registry_ok_def list_all_store_new)

lemma handle_component_create_ok:
  "registry_ok s \<Longrightarrow> registry_ok (snd (handle_component_create send now component s))"
  using handle_component_create_components [OF prod.collapse [symmetric], of send now component s]
  by (auto simp: registry_ok_def list_all_store_new)

lemma handle_component_update_ok:
  "registry_ok s \<Longrightarrow> leaves_ids props \<Longrightarrow>
   registry_ok (snd (handle_component_update send now component_id props s))"
  using handle_component_update_components
    [OF prod.collapse [symmetric], of send now component_id props s]
  by (auto simp: registry_ok_def
      intro!: list_all_store_found [where d' = d' and d = d for d d']
      dest: leaves_ids_component_id)

lemma handle_component_delete_ok:
  "registry_ok s \<Longrightarrow> registry_ok (snd (handle_component_delete send now component_id s))"
  using handle_component_delete_components
    [OF prod.collapse [symmetric], of send now component_id s]
  by (auto simp: registry_ok_def list_all_del)

lemma dispatch_ok:
  assumes "registry_ok s" "frame_leaves_ids (loaded, send, now)"
  shows "registry_ok (snd (dispatch send now loaded s))"
proof (cases loaded)
  case (Inl e)
  with assms show ?thesis by simp
next
  case (Inr v)
  show ?thesis
  proof (cases v)
    case (PDict data)
    have t: "registry_ok (snd (handle_mcp_tool_call send now tool args s))" for tool args
      using assms(1) by (simp add: registry_ok_def handle_mcp_tool_call_same)
    have w: "registry_ok (log_to l s)" for l
      using assms(1) by (simp add: registry_ok_def log_to_def)
    show ?thesis
      using assms unfolding Inr PDict dispatch.simps Let_def
      by (simp add: t w handle_ui_update_ok handle_component_create_ok
          handle_component_update_ok handle_component_delete_ok)
  qed (use assms Inr in simp_all)
qed

lemma run_ok:
  "registry_ok s \<Longrightarrow> list_all frame_leaves_ids frames \<Longrightarrow> registry_ok (run frames s)"
proof (induction frames arbitrary: s)
  case Nil
  then show ?case by simp
next
  case (Cons f frames)
  obtain loaded send now where f: "f = (loaded, send, now)" by (cases f) auto
  from Cons.prems f have "registry_ok (snd (dispatch send now loaded s))"
    by (simp add: dispatch_ok)
  then have "registry_ok (snd (handle_message send now loaded s))"
    by (simp add: registry_ok_def handle_message_components)
  from Cons.IH [OF this] Cons.prems(2) show ?case by (simp add: f)
qed

section \<open>Lifecycle\<close>

text \<open>
  C6, as the code has it: the registry is empty when the object is constructed, and
  neither \<open>start\<close> nor \<open>stop\<close> changes it: \<open>stop\<close> empties the connection list only.
\<close>

theorem registry_empty_at_init_and_kept_by_lifecycle:
  "components init = []
   \<and> components (snd (start bind s)) = components s
   \<and> components (snd (stop close s)) = components s"
  by (simp add: init_def start_def stop_def log_to_def Let_def split: option.splits prod.splits)

text \<open>
  C6 as stated fails: a server is started, one component is created, the server is
  stopped, and the component is still in the registry.
\<close>

theorem stop_keeps_registry_counterexample:
  "components (snd (stop close_ok (run [create_frame button_c1] (snd (start None init)))))
     = [(PStr ''c1'', button_c1)]"
  by (simp add: stop_def start_def init_def create_frame_def button_c1_def handle_message_def
      handle_component_create_def broadcast_message_def log_to_def dict_setitem_def dict_get_def
      key_eq_def all_sent_def close_ok_def)

text \<open>
  C7, as the code has it: \<open>start\<close> on a stopped server sets the running flag before the
  bind is attempted and hands a bind failure to the caller with the flag still set; on a
  running server it does nothing but warn.
\<close>

theorem start_sets_running_before_bind:
  "fst (start bind s) = (if is_running s then None else bind) \<and> is_running (snd (start bind s))"
  by (simp add: start_def log_to_def Let_def split: option.splits)

text \<open>
  C7 as stated fails: the bind fails on a freshly constructed server, the error reaches
  the caller, and the server is left marked as running.
\<close>

theorem start_bind_failure_counterexample:
  "fst (start (Some OSError) init) = Some OSError \<and> is_running (snd (start (Some OSError) init))"
  by (simp add: start_def init_def log_to_def)

section \<open>Errors while a message is handled\<close>

lemma handle_message_no_exception: "fst (handle_message send now loaded s) = None"
  by (simp add: handle_message_def split: prod.splits option.splits pyerr.splits)

lemma message_loop_run: "message_loop frames s = (None, run frames s)"
proof (induction frames arbitrary: s)
  case Nil
  then show ?case by simp
next
  case (Cons f frames)
  obtain loaded send now where f: "f = (loaded, send, now)" by (cases f) auto
  obtain s' where h: "handle_message send now loaded s = (None, s')"
    using handle_message_no_exception [of send now loaded s]
    by (cases "handle_message send now loaded s") auto
  show ?case by (simp add: f h Cons.IH)
qed

lemma handle_message_logs_error:
  "dispatch send now loaded s = (Some e, s') \<Longrightarrow>
   \<exists>text. snd (handle_message send now loaded s) = log_to (LogError text e) s'"
  by (cases e) (auto simp: handle_message_def)

lemma handle_message_confined:
  assumes "handle_message send now loaded s = (err, s')"
  shows "is_running s' = is_running s" "close_calls s' = close_calls s"
    "\<forall>ws \<in> set (websocket_clients s). send ws \<noteq> ConnectionClosed \<longrightarrow> ws \<in> set (websocket_clients s')"
proof -
  obtain e0 s0 where d: "dispatch send now loaded s = (e0, s0)"
    by (cases "dispatch send now loaded s") auto
  have s': "is_running s' = is_running s0 \<and> close_calls s' = close_calls s0
            \<and> websocket_clients s' = websocket_clients s0"
    using assms d
    by (auto simp: handle_message_def log_to_def split: option.splits pyerr.splits)
  have c: "is_running s0 = is_running s \<and> close_calls s0 = close_calls s \<and>
           (\<forall>ws \<in> set (websocket_clients s). send ws \<noteq> ConnectionClosed \<longrightarrow> ws \<in> set (websocket_clients s0))"
  proof (cases "loaded = Inl JSONDecodeError")
    case True
    with d show ?thesis by auto
  next
    case False
    from dispatch_confined [OF this, of send s now] d show ?thesis
      by (simp add: confined_def)
  qed
  from s' c show "is_running s' = is_running s" "close_calls s' = close_calls s"
    "\<forall>ws \<in> set (websocket_clients s). send ws \<noteq> ConnectionClosed \<longrightarrow> ws \<in> set (websocket_clients s')"
    by simp_all
qed

text \<open>
  C9: whatever the frame and whatever the connections do, \<open>handle_message\<close> raises
  nothing: an exception of the handlers is logged as an error, the lifecycle flag is not
  touched, no connection is closed, a connection whose send did not raise
  \<^verbatim>\<open>ConnectionClosed\<close> is still registered, and the loop of the connection goes
  on to every later frame.
\<close>

theorem handle_message_never_raises:
  "fst (handle_message send now loaded s) = None
   \<and> is_running (snd (handle_message send now loaded s)) = is_running s
   \<and> close_calls (snd (handle_message send now loaded s)) = close_calls s
   \<and> (\<forall>ws \<in> set (websocket_clients s). send ws \<noteq> ConnectionClosed \<longrightarrow>
         ws \<in> set (websocket_clients (snd (handle_message send now loaded s))))
   \<and> (\<forall>e s'. dispatch send now loaded s = (Some e, s') \<longrightarrow>
         (\<exists>text. snd (handle_message send now loaded s) = log_to (LogError text e) s'))
   \<and> message_loop frames s = (None, run frames s)"
  using handle_message_confined [OF prod.collapse [symmetric], where send = send and now = now and loaded = loaded and s = s]
  by (simp add: handle_message_no_exception message_loop_run handle_message_logs_error)

text \<open>
  Witness for C9: a create frame whose broadcast fails on the third connection; the
  exception is logged and the second connection stays registered.
\<close>

theorem handle_message_never_raises_witness:
  "fst (dispatch mixed_sends ''2024-01-01T00:00:00'' (fst (create_frame button_c1)) three_clients) = Some SendError
   \<and> fst (handle_message mixed_sends ''2024-01-01T00:00:00'' (fst (create_frame button_c1)) three_clients) = None
   \<and> logged (snd (handle_message mixed_sends ''2024-01-01T00:00:00'' (fst (create_frame button_c1)) three_clients))
       = [LogError ''Error handling message'' SendError]
   \<and> 2 \<in> set (websocket_clients three_clients) \<and> mixed_sends 2 \<noteq> ConnectionClosed
   \<and> 2 \<in> set (websocket_clients
        (snd (handle_message mixed_sends ''2024-01-01T00:00:00'' (fst (create_frame button_c1)) three_clients)))"
  using handle_message_never_raises [of mixed_sends "''2024-01-01T00:00:00''" "fst (create_frame button_c1)" three_clients "[]"]
  by (simp add: create_frame_def button_c1_def three_clients_def init_def mixed_sends_def
      handle_message_def handle_component_create_def broadcast_message_def log_to_def
      dict_setitem_def dict_get_def key_eq_def Let_def)

section \<open>Decoding\<close>





section \<open>Tool calls\<close>

text \<open>
  C10: a tool call, whatever its tool and arguments, leaves the registry as it is and
  broadcasts one response with \<^verbatim>\<open>success\<close> true, an empty \<^verbatim>\<open>data\<close> object and
  an empty \<^verbatim>\<open>components\<close> list; nothing else is delivered to any connection.
\<close>

theorem tool_call_always_reports_success:
  assumes "dict_get data (PStr ''type'') = PStr ''ui.mcp.tool.call''"
  shows "components (snd (handle_message send now (Inr (PDict data)) s)) = components s
    \<and> emitted (snd (handle_message send now (Inr (PDict data)) s))
        = emitted s @
          [PDict [(PStr ''type'', PStr ''ui.mcp.tool.response''),
                  (PStr ''response'',
                   PDict [(PStr ''success'', PBool True),
                          (PStr ''tool'', dict_get data (PStr ''tool'')),
                          (PStr ''data'', PDict []),
                          (PStr ''components'', PList [])]),
                  (PStr ''timestamp'', PStr now)]]
    \<and> (\<exists>out. delivered (snd (handle_message send now (Inr (PDict data)) s)) = delivered s @ out
          \<and> snd ` set out \<subseteq>
             {PDict [(PStr ''type'', PStr ''ui.mcp.tool.response''),
                  (PStr ''response'',
                   PDict [(PStr ''success'', PBool True),
                          (PStr ''tool'', dict_get data (PStr ''tool'')),
                          (PStr ''data'', PDict []),
                          (PStr ''components'', PList [])]),
                  (PStr ''timestamp'', PStr now)]})"
proof -
  let ?m = "PDict [(PStr ''type'', PStr ''ui.mcp.tool.response''),
                  (PStr ''response'',
                   PDict [(PStr ''success'', PBool True),
                          (PStr ''tool'', dict_get data (PStr ''tool'')),
                          (PStr ''data'', PDict []),
                          (PStr ''components'', PList [])]),
                  (PStr ''timestamp'', PStr now)]"
  let ?s0 = "log_to (LogInfo ''MCP tool call'') s"
  obtain err s1 where b: "broadcast_message send ?m ?s0 = (err, s1)"
    by (cases "broadcast_message send ?m ?s0") auto
  have d: "dispatch send now (Inr (PDict data)) s = (err, s1)"
    using assms b by (simp add: handle_mcp_tool_call_def)
  have h: "components (snd (handle_message send now (Inr (PDict data)) s)) = components s1
      \<and> emitted (snd (handle_message send now (Inr (PDict data)) s)) = emitted s1
      \<and> delivered (snd (handle_message send now (Inr (PDict data)) s)) = delivered s1"
    using d by (auto simp: handle_message_def log_to_def split: option.splits pyerr.splits)
  from broadcast_frame [OF b] h show ?thesis by (simp add: log_to_def)
qed

text \<open>Witness for C10: a call of the tool \<^verbatim>\<open>search\<close> with three connections open.\<close>

theorem tool_call_always_reports_success_witness:
  "dict_get tool_call (PStr ''type'') = PStr ''ui.mcp.tool.call''
   \<and> components (snd (handle_message all_sent ''2024-01-01T00:00:00'' (Inr (PDict tool_call)) three_clients)) = []
   \<and> emitted (snd (handle_message all_sent ''2024-01-01T00:00:00'' (Inr (PDict tool_call)) three_clients))
       = [PDict [(PStr ''type'', PStr ''ui.mcp.tool.response''),
                  (PStr ''response'',
                   PDict [(PStr ''success'', PBool True),
                          (PStr ''tool'', PStr ''search''),
                          (PStr ''data'', PDict []),
                          (PStr ''components'', PList [])]),
                  (PStr ''timestamp'', PStr ''2024-01-01T00:00:00'')]]"
proof -
  have t: "dict_get tool_call (PStr ''type'') = PStr ''ui.mcp.tool.call''"
    by (simp add: tool_call_def dict_get_def key_eq_def)
  have u: "dict_get tool_call (PStr ''tool'') = PStr ''search''"
    by (simp add: tool_call_def dict_get_def key_eq_def)
  show ?thesis
    using tool_call_always_reports_success [OF t, of all_sent "''2024-01-01T00:00:00''" three_clients]
    by (simp add: t u three_clients_def init_def)
qed

section \<open>Broadcast\<close>




section \<open>Removing a connection\<close>

text \<open>
  C8 fails on the code: a broadcast prunes connection 1, whose send raised
  \<^verbatim>\<open>ConnectionClosed\<close>; the \<^verbatim>\<open>finally\<close> clause of its own handler then calls
  \<^verbatim>\<open>remove\<close> for a connection that is no longer in the list, and ValueError leaves
  \<open>handle_websocket\<close>.
\<close>

theorem remove_after_prune_raises:
  "websocket_clients (snd (handle_message first_closed ''2024-01-01T00:00:00'' (Inr (PDict tool_call)) three_clients))
     = [2, 3]
   \<and> list_remove [2, 3] 1 = Inl ValueError
   \<and> fst (handle_websocket 1 [(Inr (PDict tool_call), first_closed, ''2024-01-01T00:00:00'')] True init)
       = Some ValueError"
  by (simp add: handle_websocket_def handle_message_def handle_mcp_tool_call_def
      broadcast_message_def list_remove_def log_to_def tool_call_def three_clients_def init_def
      first_closed_def dict_get_def key_eq_def Let_def)

section \<open>Updating a component\<close>

text \<open>
  C1 fails on the code: after a create with empty props, an update with the props
  \<^verbatim>\<open>{"k": 1}\<close> leaves \<^verbatim>\<open>props\<close> empty and puts \<^verbatim>\<open>k\<close> beside it, and an
  update with the props \<^verbatim>\<open>{"kind": "card"}\<close> overwrites the component's own
  \<^verbatim>\<open>kind\<close> field.
\<close>

theorem update_merges_beside_props:
  "components (run [create_frame button_c1,
                    update_frame (PStr ''c1'') (PDict [(PStr ''k'', PInt 1)])] init)
     = [(PStr ''c1'', PDict [(PStr ''id'', PStr ''c1''), (PStr ''kind'', PStr ''button''),
                            (PStr ''props'', PDict []), (PStr ''k'', PInt 1)])]
   \<and> components (run [create_frame button_c1,
                    update_frame (PStr ''c1'') (PDict [(PStr ''kind'', PStr ''card'')])] init)
     = [(PStr ''c1'', PDict [(PStr ''id'', PStr ''c1''), (PStr ''kind'', PStr ''card''),
                            (PStr ''props'', PDict [])])]"
  by (simp add: create_frame_def update_frame_def button_c1_def init_def all_sent_def
      handle_message_def handle_component_create_def handle_component_update_def
      broadcast_message_def log_to_def dict_setitem_def dict_contains_def dict_get_def
      key_eq_def Let_def)

section \<open>Messages for an identifier the registry does not hold\<close>








section \<open>Registry keys and component identifiers\<close>

text \<open>
  C2, as the code has it: as long as no update message writes the keys \<^verbatim>\<open>id\<close> or
  \<^verbatim>\<open>componentId\<close>, every entry of the registry is an object stored under a truthy
  key (a string key is not empty) that names the object's \<^verbatim>\<open>id\<close> field when that
  is truthy and its \<^verbatim>\<open>componentId\<close> field otherwise.
\<close>

theorem registry_keys_name_their_components:
  assumes "registry_ok s" and "list_all frame_leaves_ids frames"
  shows "registry_ok (run frames s)"
  using assms by (rule run_ok)

text \<open>
  C2 as stated fails: a create message whose component carries only \<^verbatim>\<open>componentId\<close>
  is stored under that value, and the stored component has no \<^verbatim>\<open>id\<close> field.
\<close>

theorem create_by_componentId_counterexample:
  "components (run [create_frame (PDict [(PStr ''componentId'', PStr ''x'')])] init)
     = [(PStr ''x'', PDict [(PStr ''componentId'', PStr ''x'')])]
   \<and> \<not> list_all entry_has_own_id
         (components (run [create_frame (PDict [(PStr ''componentId'', PStr ''x'')])] init))"
  by (simp add: create_frame_def init_def handle_message_def handle_component_create_def
      broadcast_message_def log_to_def dict_setitem_def dict_get_def key_eq_def Let_def)

text \<open>
  Witness for C2: a create, an update of a property, a create by \<^verbatim>\<open>componentId\<close>
  and a delete, from the initial state.
\<close>

theorem registry_keys_name_their_components_witness:
  "registry_ok init
   \<and> list_all frame_leaves_ids
        [create_frame button_c1,
         update_frame (PStr ''c1'') (PDict [(PStr ''label'', PStr ''Stop'')]),
         create_frame (PDict [(PStr ''componentId'', PStr ''x'')]),
         delete_frame (PStr ''c1'')]
   \<and> registry_ok (run
        [create_frame button_c1,
         update_frame (PStr ''c1'') (PDict [(PStr ''label'', PStr ''Stop'')]),
         create_frame (PDict [(PStr ''componentId'', PStr ''x'')]),
         delete_frame (PStr ''c1'')] init)
   \<and> components (run
        [create_frame button_c1,
         update_frame (PStr ''c1'') (PDict [(PStr ''label'', PStr ''Stop'')]),
         create_frame (PDict [(PStr ''componentId'', PStr ''x'')]),
         delete_frame (PStr ''c1'')] init)
       = [(PStr ''x'', PDict [(PStr ''componentId'', PStr ''x'')])]"
proof -
  have a: "registry_ok init"
    by (simp add: registry_ok_def init_def)
  have b: "list_all frame_leaves_ids
        [create_frame button_c1,
         update_frame (PStr ''c1'') (PDict [(PStr ''label'', PStr ''Stop'')]),
         create_frame (PDict [(PStr ''componentId'', PStr ''x'')]),
         delete_frame (PStr ''c1'')]"
    by (simp add: create_frame_def update_frame_def delete_frame_def leaves_ids_def
        dict_get_def key_eq_def)
  have c: "components (run
        [create_frame button_c1,
         update_frame (PStr ''c1'') (PDict [(PStr ''label'', PStr ''Stop'')]),
         create_frame (PDict [(PStr ''componentId'', PStr ''x'')]),
         delete_frame (PStr ''c1'')] init)
       = [(PStr ''x'', PDict [(PStr ''componentId'', PStr ''x'')])]"
    by (simp add: create_frame_def update_frame_def delete_frame_def button_c1_def init_def
      all_sent_def handle_message_def handle_component_create_def handle_component_update_def
      handle_component_delete_def broadcast_message_def log_to_def dict_setitem_def
      dict_contains_def dict_get_def key_eq_def Let_def)
  from registry_keys_name_their_components [OF a b] a b c show ?thesis by simp
qed

end
